theory Spec2Isabelle
  imports Main "HOL-Library.Word"
begin

section \<open>Bytes and strings\<close>

text \<open>
  A Node \<open>Buffer\<close> is a list of 8-bit words. JavaScript strings are sequences of UTF-16
  code units: the text that is encrypted (\<open>plaintext\<close>, the output of \<open>JSON.stringify\<close>)
  is modelled as a list of 16-bit words, so that the UTF-8 conversions of
  \<open>cipher.update(plaintext, 'utf8')\<close> and \<open>decrypted.toString('utf8')\<close> are part of the
  model. Protocol text that the code only compares, concatenates or decodes as base64
  (keys, envelope fields, header names, URLs) is modelled as \<open>string\<close>.
\<close>

type_synonym bytes = "8 word list"
type_synonym ustring = "16 word list"

subsection \<open>Decimal rendering of a number in a template literal\<close>

fun show_nat :: "nat \<Rightarrow> string" where
  "show_nat n = (if n < 10 then [char_of (48 + n)]
                 else show_nat (n div 10) @ [char_of (48 + n mod 10)])"

declare show_nat.simps [simp del]

subsection \<open>Base64 (\<open>buf.toString('base64')\<close> and \<open>Buffer.from(s, 'base64')\<close>)\<close>

definition b64char :: "nat \<Rightarrow> char" where
  "b64char i =
     (if i < 26 then char_of (65 + i)
      else if i < 52 then char_of (97 + (i - 26))
      else if i < 62 then char_of (48 + (i - 52))
      else if i = 62 then CHR ''+'' else CHR ''/'')"

text \<open>
  The encoder writes the standard alphabet and pads the last group with \<open>=\<close>.
\<close>

fun b64_encode :: "bytes \<Rightarrow> string" where
  "b64_encode [] = []"
| "b64_encode [a] =
     [b64char (unat a div 4), b64char ((unat a mod 4) * 16), CHR ''='', CHR ''='']"
| "b64_encode [a, b] =
     [b64char (unat a div 4), b64char ((unat a mod 4) * 16 + unat b div 16),
      b64char ((unat b mod 16) * 4), CHR ''='']"
| "b64_encode (a # b # c # rest) =
     [b64char (unat a div 4), b64char ((unat a mod 4) * 16 + unat b div 16),
      b64char ((unat b mod 16) * 4 + unat c div 64), b64char (unat c mod 64)]
     @ b64_encode rest"

text \<open>
  The decoder of Node never throws on a string. It accepts the standard and the URL-safe
  alphabet, skips every other character, stops at the first \<open>=\<close>, and drops a trailing
  group of a single sextet.
\<close>

definition unbase64 :: "char \<Rightarrow> nat option" where
  "unbase64 c =
     (let n = (of_char c :: nat) in
      if 65 \<le> n \<and> n \<le> 90 then Some (n - 65)
      else if 97 \<le> n \<and> n \<le> 122 then Some (n - 71)
      else if 48 \<le> n \<and> n \<le> 57 then Some (n + 4)
      else if c = CHR ''+'' \<or> c = CHR ''-'' then Some 62
      else if c = CHR ''/'' \<or> c = CHR ''_'' then Some 63
      else None)"

fun b64_unpack :: "nat list \<Rightarrow> bytes" where
  "b64_unpack (w # x # y # z # rest) =
     [of_nat (w * 4 + x div 16), of_nat ((x mod 16) * 16 + y div 4),
      of_nat ((y mod 4) * 64 + z)] @ b64_unpack rest"
| "b64_unpack [w, x, y] = [of_nat (w * 4 + x div 16), of_nat ((x mod 16) * 16 + y div 4)]"
| "b64_unpack [w, x] = [of_nat (w * 4 + x div 16)]"
| "b64_unpack [w] = []"
| "b64_unpack [] = []"

definition b64_sextets :: "string \<Rightarrow> nat list" where
  "b64_sextets s = List.map_filter unbase64 (takeWhile (\<lambda>c. c \<noteq> CHR ''='') s)"

definition b64_decode :: "string \<Rightarrow> bytes" where
  "b64_decode s = b64_unpack (b64_sextets s)"


subsection \<open>UTF-8 (\<open>cipher.update(plaintext, 'utf8')\<close> and \<open>buf.toString('utf8')\<close>)\<close>

text \<open>
  Encoding a JavaScript string first turns its code units into Unicode scalar values: a
  high surrogate followed by a low surrogate is one supplementary code point, and every
  other surrogate is replaced by U+FFFD.
\<close>

definition is_high_surrogate :: "16 word \<Rightarrow> bool" where
  "is_high_surrogate u = (0xD800 \<le> unat u \<and> unat u \<le> 0xDBFF)"

definition is_low_surrogate :: "16 word \<Rightarrow> bool" where
  "is_low_surrogate u = (0xDC00 \<le> unat u \<and> unat u \<le> 0xDFFF)"

definition scalar_of :: "16 word \<Rightarrow> nat" where
  "scalar_of u = (if is_high_surrogate u \<or> is_low_surrogate u then 0xFFFD else unat u)"

fun code_points :: "ustring \<Rightarrow> nat list" where
  "code_points [] = []"
| "code_points [u] = [scalar_of u]"
| "code_points (u # v # rest) =
     (if is_high_surrogate u \<and> is_low_surrogate v
      then (0x10000 + (unat u - 0xD800) * 0x400 + (unat v - 0xDC00)) # code_points rest
      else scalar_of u # code_points (v # rest))"

text \<open>The UTF-8 bytes of one scalar value.\<close>

definition utf8_of_cp :: "nat \<Rightarrow> bytes" where
  "utf8_of_cp cp =
     (if cp < 0x80 then [of_nat cp]
      else if cp < 0x800 then [of_nat (0xC0 + cp div 64), of_nat (0x80 + cp mod 64)]
      else if cp < 0x10000 then
        [of_nat (0xE0 + cp div 4096), of_nat (0x80 + cp div 64 mod 64), of_nat (0x80 + cp mod 64)]
      else
        [of_nat (0xF0 + cp div 262144), of_nat (0x80 + cp div 4096 mod 64),
         of_nat (0x80 + cp div 64 mod 64), of_nat (0x80 + cp mod 64)])"

definition utf8_encode :: "ustring \<Rightarrow> bytes" where
  "utf8_encode s = concat (map utf8_of_cp (code_points s))"

definition units_of_cp :: "nat \<Rightarrow> ustring" where
  "units_of_cp cp =
     (if cp < 0x10000 then [of_nat cp]
      else [of_nat (0xD800 + (cp - 0x10000) div 0x400), of_nat (0xDC00 + (cp - 0x10000) mod 0x400)])"

text \<open>
  Decoding follows the WHATWG decoder that V8 implements: the state is the number of
  continuation bytes still needed, the code point accumulated so far and the range
  allowed for the next byte. A byte that cannot continue the current sequence ends it
  with U+FFFD and is then read again as the start of a new sequence; a sequence cut off
  by the end of the input gives one U+FFFD. \<open>toString('utf8')\<close> keeps a leading byte
  order mark.
\<close>

type_synonym utf8_state = "nat \<times> nat \<times> nat \<times> nat"

definition utf8_start :: utf8_state where
  "utf8_start = (0, 0, 0x80, 0xBF)"

definition utf8_lead :: "nat \<Rightarrow> ustring \<times> utf8_state" where
  "utf8_lead b =
     (if b \<le> 0x7F then ([of_nat b], utf8_start)
      else if 0xC2 \<le> b \<and> b \<le> 0xDF then ([], (1, b mod 32, 0x80, 0xBF))
      else if 0xE0 \<le> b \<and> b \<le> 0xEF then
        ([], (2, b mod 16, if b = 0xE0 then 0xA0 else 0x80, if b = 0xED then 0x9F else 0xBF))
      else if 0xF0 \<le> b \<and> b \<le> 0xF4 then
        ([], (3, b mod 8, if b = 0xF0 then 0x90 else 0x80, if b = 0xF4 then 0x8F else 0xBF))
      else ([0xFFFD], utf8_start))"

fun utf8_dec :: "utf8_state \<Rightarrow> bytes \<Rightarrow> ustring" where
  "utf8_dec (needed, cp, lower, upper) [] = (if needed = 0 then [] else [0xFFFD])"
| "utf8_dec (needed, cp, lower, upper) (b # bs) =
     (if needed = 0 then fst (utf8_lead (unat b)) @ utf8_dec (snd (utf8_lead (unat b))) bs
      else if unat b < lower \<or> upper < unat b
        then 0xFFFD # fst (utf8_lead (unat b)) @ utf8_dec (snd (utf8_lead (unat b))) bs
      else if needed = 1 then units_of_cp (cp * 64 + unat b mod 64) @ utf8_dec utf8_start bs
      else utf8_dec (needed - 1, cp * 64 + unat b mod 64, 0x80, 0xBF) bs)"

definition utf8_decode :: "bytes \<Rightarrow> ustring" where
  "utf8_decode bs = utf8_dec utf8_start bs"

text \<open>
  A string is well formed when it has no unpaired surrogate, and \<open>toWellFormed\<close> (the
  method of that name of JavaScript strings) replaces each unpaired surrogate by U+FFFD.
\<close>

fun well_formed :: "ustring \<Rightarrow> bool" where
  "well_formed [] = True"
| "well_formed [u] = (\<not> is_high_surrogate u \<and> \<not> is_low_surrogate u)"
| "well_formed (u # v # rest) =
     (if is_high_surrogate u then is_low_surrogate v \<and> well_formed rest
      else \<not> is_low_surrogate u \<and> well_formed (v # rest))"

definition replace_surrogate :: "16 word \<Rightarrow> 16 word" where
  "replace_surrogate u = (if is_high_surrogate u \<or> is_low_surrogate u then 0xFFFD else u)"

fun toWellFormed :: "ustring \<Rightarrow> ustring" where
  "toWellFormed [] = []"
| "toWellFormed [u] = [replace_surrogate u]"
| "toWellFormed (u # v # rest) =
     (if is_high_surrogate u \<and> is_low_surrogate v then u # v # toWellFormed rest
      else replace_surrogate u # toWellFormed (v # rest))"



section \<open>JSON values and errors\<close>

text \<open>
  A JSON value as \<open>res.json()\<close> and \<open>JSON.parse\<close> return it. An object is the list of
  its properties, whose names are distinct. Numbers are integers here: the code reads no
  number of a body.
\<close>

datatype json =
    JNull
  | JBool bool
  | JNum int
  | JStr string
  | JArr "json list"
  | JObj "(string \<times> json) list"

text \<open>
  The exceptions that can leave the code: \<open>Error\<close> is a plain \<open>new Error(message)\<close>
  of this repository, \<open>TypeError\<close> and \<open>SyntaxError\<close> come from the runtime
  (\<open>Buffer.from(undefined, ...)\<close>, a property read on \<open>null\<close>, \<open>JSON.parse\<close>,
  \<open>res.json()\<close>), \<open>InvalidIV\<close>, \<open>InvalidAuthTag\<close> and \<open>UnableToAuthenticate\<close> are
  the errors of \<open>node:crypto\<close> (from \<open>createCipheriv\<close>/\<open>createDecipheriv\<close>,
  \<open>setAuthTag\<close> and \<open>final\<close>), \<open>SafeChatError message status body\<close> is the class of
  the client, and \<open>FetchFailed\<close> is a rejection of \<open>fetch\<close> that is thrown again.
\<close>

datatype error =
    Error string
  | TypeError
  | SyntaxError
  | InvalidIV
  | InvalidAuthTag
  | UnableToAuthenticate
  | SafeChatError json nat json
  | FetchFailed

section \<open>crypto.ts\<close>

text \<open>
  The platform's AES-256-GCM is a parameter of the model: \<open>accepts_iv\<close> and
  \<open>accepts_tag\<close> say which nonces \<open>createCipheriv\<close>/\<open>createDecipheriv\<close> and which tags
  \<open>setAuthTag\<close> take without throwing, \<open>seal key nonce plaintext\<close> is the pair of
  \<open>Buffer.concat([cipher.update(...), cipher.final()])\<close> and \<open>cipher.getAuthTag()\<close>, and
  \<open>unseal key nonce tag data\<close> is \<open>Buffer.concat([decipher.update(data),
  decipher.final()])\<close>, with \<open>None\<close> when \<open>final\<close> throws.
\<close>

record aes_256_gcm =
  accepts_iv :: "bytes \<Rightarrow> bool"
  accepts_tag :: "bytes \<Rightarrow> bool"
  seal :: "bytes \<Rightarrow> bytes \<Rightarrow> bytes \<Rightarrow> bytes \<times> bytes"
  unseal :: "bytes \<Rightarrow> bytes \<Rightarrow> bytes \<Rightarrow> bytes \<Rightarrow> bytes option"

definition IV_BYTES :: nat where
  "IV_BYTES = 12"

text \<open>
  The entropy source is the sequence of bytes it will deliver next; \<open>randomBytes n\<close>
  returns the first \<open>n\<close> of them.
\<close>

definition randomBytes :: "(nat \<Rightarrow> 8 word) \<Rightarrow> nat \<Rightarrow> bytes" where
  "randomBytes rnd n = map rnd [0..<n]"

text \<open>
  A field of the payload is \<open>None\<close> when the property is \<open>undefined\<close> at run time.
\<close>

record EncryptedPayload =
  iv :: "string option"
  tag :: "string option"
  data :: "string option"

definition invalid_key_message :: "nat \<Rightarrow> string" where
  "invalid_key_message n = ''Invalid encryption key: expected 32 bytes (256-bit), got '' @ show_nat n"

definition encrypt ::
  "aes_256_gcm \<Rightarrow> (nat \<Rightarrow> 8 word) \<Rightarrow> ustring \<Rightarrow> string \<Rightarrow> error + EncryptedPayload" where
  "encrypt G rnd plaintext keyBase64 =
     (let key = b64_decode keyBase64 in
      if length key \<noteq> 32 then Inl (Error (invalid_key_message (length key)))
      else let nonce = randomBytes rnd IV_BYTES in
        if \<not> accepts_iv G nonce then Inl InvalidIV
        else case seal G key nonce (utf8_encode plaintext) of
          (encrypted, t) \<Rightarrow>
            Inr \<lparr>iv = Some (b64_encode nonce), tag = Some (b64_encode t),
                 data = Some (b64_encode encrypted)\<rparr>)"

definition Buffer_from_base64 :: "string option \<Rightarrow> error + bytes" where
  "Buffer_from_base64 v = (case v of None \<Rightarrow> Inl TypeError | Some s \<Rightarrow> Inr (b64_decode s))"

definition decrypt :: "aes_256_gcm \<Rightarrow> EncryptedPayload \<Rightarrow> string \<Rightarrow> error + ustring" where
  "decrypt G payload keyBase64 =
     (let key = b64_decode keyBase64 in
      if length key \<noteq> 32 then Inl (Error (invalid_key_message (length key)))
      else case Buffer_from_base64 (iv payload) of
        Inl e \<Rightarrow> Inl e
      | Inr nonce \<Rightarrow>
          if \<not> accepts_iv G nonce then Inl InvalidIV
          else case Buffer_from_base64 (tag payload) of
            Inl e \<Rightarrow> Inl e
          | Inr t \<Rightarrow>
              if \<not> accepts_tag G t then Inl InvalidAuthTag
              else case Buffer_from_base64 (data payload) of
                Inl e \<Rightarrow> Inl e
              | Inr d \<Rightarrow>
                  (case unseal G key nonce t d of
                     None \<Rightarrow> Inl UnableToAuthenticate
                   | Some decrypted \<Rightarrow> Inr (utf8_decode decrypted)))"


section \<open>client.ts\<close>

definition DEFAULT_BASE_URL :: string where
  "DEFAULT_BASE_URL = ''https://safechat-api.autobb.app''"

definition DEFAULT_TIMEOUT :: nat where
  "DEFAULT_TIMEOUT = 30000"

record SafeChatOptions =
  apiKey :: string
  encryptionKey :: "string option"
  baseUrl :: "string option"
  timeout :: "nat option"

text \<open>The private fields of the class \<open>SafeChat\<close>.\<close>

record SafeChat =
  this_apiKey :: string
  this_encryptionKey :: "string option"
  this_baseUrl :: string
  this_timeout :: nat

text \<open>
  \<open>s.replace(/\/+$/, '')\<close>: the first match of the pattern is the longest run of
  slashes that ends the string, and it is removed.
\<close>

definition strip_trailing_slashes :: "string \<Rightarrow> string" where
  "strip_trailing_slashes s = rev (dropWhile (\<lambda>c. c = CHR ''/'') (rev s))"

definition SafeChat_new :: "SafeChatOptions \<Rightarrow> error + SafeChat" where
  "SafeChat_new options =
     (if apiKey options = [] then Inl (Error ''apiKey is required'')
      else Inr \<lparr>this_apiKey = apiKey options,
                this_encryptionKey = encryptionKey options,
                this_baseUrl = strip_trailing_slashes
                  (case baseUrl options of None \<Rightarrow> DEFAULT_BASE_URL | Some u \<Rightarrow> u),
                this_timeout = (case timeout options of None \<Rightarrow> DEFAULT_TIMEOUT | Some t \<Rightarrow> t)\<rparr>)"

text \<open>
  \<open>if (this.encryptionKey)\<close> holds for a string that is neither \<open>undefined\<close> nor empty.
\<close>

definition key_configured :: "SafeChat \<Rightarrow> bool" where
  "key_configured this = (case this_encryptionKey this of None \<Rightarrow> False | Some k \<Rightarrow> k \<noteq> [])"

subsection \<open>The HTTP exchange\<close>

text \<open>The arguments of \<open>fetch\<close>: the URL and the \<open>method\<close>, \<open>headers\<close> and \<open>body\<close> options.\<close>

record http_request =
  url :: string
  http_method :: string
  headers :: "(string \<times> string) list"
  body :: "ustring option"

text \<open>
  Of a \<open>Response\<close> the code reads the status, the status text, the headers (\<open>get\<close>
  ignores the case of the name: the map is keyed by lower-case names) and \<open>json()\<close>,
  which is \<open>None\<close> when the promise rejects because the body is not valid JSON.
\<close>

record response =
  status :: nat
  statusText :: string
  res_headers :: "string \<Rightarrow> string option"
  res_json :: "json option"

definition ok :: "response \<Rightarrow> bool" where
  "ok res = (200 \<le> status res \<and> status res \<le> 299)"

text \<open>
  \<open>fetch\<close> either is aborted by the timer, or rejects for another reason, or resolves
  with a response.
\<close>

datatype fetch_result = Aborted | Rejected | Responded response

text \<open>
  What the client takes from its platform: the cipher, the entropy source, the JSON
  serializer and parser for text, and the network.
\<close>

record platform =
  gcm :: aes_256_gcm
  random :: "nat \<Rightarrow> 8 word"
  JSON_stringify :: "json \<Rightarrow> ustring"
  JSON_parse :: "ustring \<Rightarrow> json option"
  fetch :: "http_request \<Rightarrow> fetch_result"

text \<open>
  The object \<open>{iv, tag, data}\<close> as a JSON value (\<open>JSON.stringify\<close> omits a property that
  is \<open>undefined\<close>), and the fields that \<open>decrypt\<close> reads from the value returned by
  \<open>res.json()\<close>. A field is present when the value is an object holding a string under
  that name. A read on anything else ends in the same \<open>TypeError\<close> as a missing
  property; byte arrays in place of strings, which \<open>Buffer.from\<close> would also take, are
  not part of the model.
\<close>

definition payload_json :: "EncryptedPayload \<Rightarrow> json" where
  "payload_json p =
     JObj (List.map_filter (\<lambda>(name, v). map_option (\<lambda>s. (name, JStr s)) v)
       [(''iv'', iv p), (''tag'', tag p), (''data'', data p)])"

definition string_field :: "json \<Rightarrow> string \<Rightarrow> string option" where
  "string_field j name =
     (case j of
        JObj props \<Rightarrow> (case map_of props name of Some (JStr s) \<Rightarrow> Some s | _ \<Rightarrow> None)
      | _ \<Rightarrow> None)"

definition as_EncryptedPayload :: "json \<Rightarrow> EncryptedPayload" where
  "as_EncryptedPayload j =
     \<lparr>iv = string_field j ''iv'', tag = string_field j ''tag'', data = string_field j ''data''\<rparr>"

text \<open>
  \<open>errorBody.error\<close>: reading a property of \<open>null\<close> throws, an object gives the value
  stored under the name, and any other JSON value gives \<open>undefined\<close>.
\<close>

definition get_property :: "json \<Rightarrow> string \<Rightarrow> error + json option" where
  "get_property j name =
     (case j of
        JNull \<Rightarrow> Inl TypeError
      | JObj props \<Rightarrow> Inr (map_of props name)
      | _ \<Rightarrow> Inr None)"

fun truthy :: "json \<Rightarrow> bool" where
  "truthy JNull = False"
| "truthy (JBool b) = b"
| "truthy (JNum n) = (n \<noteq> 0)"
| "truthy (JStr s) = (s \<noteq> [])"
| "truthy (JArr xs) = True"
| "truthy (JObj props) = True"

text \<open>
  The first part of \<open>request\<close>: the URL, the headers and the payload handed to \<open>fetch\<close>.
\<close>

definition request_url :: "SafeChat \<Rightarrow> string \<Rightarrow> string" where
  "request_url this path = this_baseUrl this @ path"

definition outbound ::
  "platform \<Rightarrow> SafeChat \<Rightarrow> string \<Rightarrow> string \<Rightarrow> json option \<Rightarrow> error + http_request" where
  "outbound P this meth path body_opt =
     (let hs = [(''X-API-Key'', this_apiKey this), (''Accept'', ''application/json'')] in
      case body_opt of
        None \<Rightarrow>
          Inr \<lparr>url = request_url this path, http_method = meth, headers = hs, body = None\<rparr>
      | Some b \<Rightarrow>
          (let hs1 = hs @ [(''Content-Type'', ''application/json'')] in
           if key_configured this then
             (case encrypt (gcm P) (random P) (JSON_stringify P b)
                     (case this_encryptionKey this of Some k \<Rightarrow> k | None \<Rightarrow> []) of
                Inl e \<Rightarrow> Inl e
              | Inr encrypted \<Rightarrow>
                  Inr \<lparr>url = request_url this path, http_method = meth,
                       headers = hs1 @ [(''X-Encrypted'', ''true'')],
                       body = Some (JSON_stringify P (payload_json encrypted))\<rparr>)
           else
             Inr \<lparr>url = request_url this path, http_method = meth, headers = hs1,
                  body = Some (JSON_stringify P b)\<rparr>))"

text \<open>The last part of \<open>request\<close>: what is made of the response.\<close>

definition inbound :: "platform \<Rightarrow> SafeChat \<Rightarrow> response \<Rightarrow> error + json" where
  "inbound P this res =
     (if \<not> ok res then
        (let errorBody =
               (case res_json res of
                  Some j \<Rightarrow> j
                | None \<Rightarrow> JObj [(''error'', JStr (statusText res))]) in
         case get_property errorBody ''error'' of
           Inl e \<Rightarrow> Inl e
         | Inr prop \<Rightarrow>
             Inl (SafeChatError
                    (case prop of
                       Some v \<Rightarrow> if truthy v then v else JStr (''HTTP '' @ show_nat (status res))
                     | None \<Rightarrow> JStr (''HTTP '' @ show_nat (status res)))
                    (status res) errorBody))
      else
        (let resEncrypted = (res_headers res ''x-encrypted'' = Some ''true'') in
         if resEncrypted \<and> key_configured this then
           (case res_json res of
              None \<Rightarrow> Inl SyntaxError
            | Some encryptedBody \<Rightarrow>
                (case decrypt (gcm P) (as_EncryptedPayload encryptedBody)
                        (case this_encryptionKey this of Some k \<Rightarrow> k | None \<Rightarrow> []) of
                   Inl e \<Rightarrow> Inl e
                 | Inr plaintext \<Rightarrow>
                     (case JSON_parse P plaintext of
                        None \<Rightarrow> Inl SyntaxError
                      | Some v \<Rightarrow> Inr v)))
         else
           (case res_json res of
              None \<Rightarrow> Inl SyntaxError
            | Some v \<Rightarrow> Inr v)))"

definition request ::
  "platform \<Rightarrow> SafeChat \<Rightarrow> string \<Rightarrow> string \<Rightarrow> json option \<Rightarrow> error + json" where
  "request P this meth path body_opt =
     (case outbound P this meth path body_opt of
        Inl e \<Rightarrow> Inl e
      | Inr req \<Rightarrow>
          (case fetch P req of
             Aborted \<Rightarrow>
               Inl (Error (''SafeChat request timed out after '' @ show_nat (this_timeout this)
                           @ ''ms''))
           | Rejected \<Rightarrow> Inl FetchFailed
           | Responded res \<Rightarrow> inbound P this res))"

definition post :: "platform \<Rightarrow> SafeChat \<Rightarrow> string \<Rightarrow> json \<Rightarrow> error + json" where
  "post P this path b = request P this ''POST'' path (Some b)"

definition get :: "platform \<Rightarrow> SafeChat \<Rightarrow> string \<Rightarrow> error + json" where
  "get P this path = request P this ''GET'' path None"

definition del :: "platform \<Rightarrow> SafeChat \<Rightarrow> string \<Rightarrow> error + json" where
  "del P this path = request P this ''DELETE'' path None"

section \<open>Contracts of the platform cipher and a cipher for computing examples\<close>

text \<open>
  Correctness of the cipher: with a 32-byte key and a 12-byte nonce, the nonce and the
  produced tag are accepted, and unsealing what was sealed returns the plaintext.
\<close>

definition aead_correct :: "aes_256_gcm \<Rightarrow> bool" where
  "aead_correct G \<longleftrightarrow>
     (\<forall>k n p. length k = 32 \<and> length n = IV_BYTES \<longrightarrow>
        accepts_iv G n \<and> accepts_tag G (snd (seal G k n p)) \<and>
        unseal G k n (snd (seal G k n p)) (fst (seal G k n p)) = Some p)"



text \<open>
  A cipher for computing examples. It adds one to every byte and uses the key, the nonce
  and the ciphertext themselves as the tag, so that it meets the three contracts above.
  It protects nothing and only stands in for the platform cipher where a closed term has
  to be evaluated.
\<close>

definition tagged_cipher :: aes_256_gcm where
  "tagged_cipher =
     \<lparr>accepts_iv = (\<lambda>n. n \<noteq> []),
      accepts_tag = (\<lambda>t. t \<noteq> []),
      seal = (\<lambda>k n p. (map (\<lambda>b. b + 1) p, k @ n @ map (\<lambda>b. b + 1) p)),
      unseal = (\<lambda>k n t c. if t = k @ n @ c then Some (map (\<lambda>b. b - 1) c) else None)\<rparr>"

text \<open>The key of the repository's tests, \<open>Buffer.alloc(32, 0xab).toString('base64')\<close>.\<close>

definition test_key :: string where
  "test_key = ''q6urq6urq6urq6urq6urq6urq6urq6urq6urq6urq6s=''"


text \<open>
  An entropy source that delivers zero bytes, the text \<open>hi\<close>, and the envelope that
  \<open>encrypt\<close> makes of it with the example cipher under the test key.
\<close>

definition zero_entropy :: "nat \<Rightarrow> 8 word" where
  "zero_entropy = (\<lambda>_. 0)"

definition hi_text :: ustring where
  "hi_text = [0x68, 0x69]"

definition hi_envelope :: EncryptedPayload where
  "hi_envelope =
     \<lparr>iv = Some ''AAAAAAAAAAAAAAAA'',
      tag = Some ''q6urq6urq6urq6urq6urq6urq6urq6urq6urq6urq6sAAAAAAAAAAAAAAABpag=='',
      data = Some ''aWo=''\<rparr>"

section \<open>A platform for computing examples\<close>

text \<open>
  A JSON serializer for the values of the examples: it writes integers, escapes the
  quotation mark and the backslash in strings, and writes no white space, as
  \<open>JSON.stringify\<close> does for such values. The parser of the example platform recognises
  the serialized form of the values it is given.
\<close>

definition ascii :: "string \<Rightarrow> ustring" where
  "ascii s = map (\<lambda>c. of_nat (of_char c)) s"

definition quote :: "string \<Rightarrow> string" where
  "quote s =
     [CHR 0x22] @ concat (map (\<lambda>c. if c = CHR 0x22 \<or> c = CHR 0x5C then [CHR 0x5C, c] else [c]) s)
     @ [CHR 0x22]"

fun join_with :: "string \<Rightarrow> string list \<Rightarrow> string" where
  "join_with sep [] = []"
| "join_with sep [x] = x"
| "join_with sep (x # y # rest) = x @ sep @ join_with sep (y # rest)"

fun stringify :: "json \<Rightarrow> string" where
  "stringify JNull = ''null''"
| "stringify (JBool b) = (if b then ''true'' else ''false'')"
| "stringify (JNum n) = (if n < 0 then ''-'' @ show_nat (nat (- n)) else show_nat (nat n))"
| "stringify (JStr s) = quote s"
| "stringify (JArr xs) = ''['' @ join_with '','' (map stringify xs) @ '']''"
| "stringify (JObj props) =
     ''{'' @ join_with '','' (map (\<lambda>kv. quote (fst kv) @ '':'' @ stringify (snd kv)) props) @ ''}''"

definition parse_among :: "json list \<Rightarrow> ustring \<Rightarrow> json option" where
  "parse_among known s = List.find (\<lambda>j. ascii (stringify j) = s) known"

definition hello_body :: json where
  "hello_body = JObj [(''text'', JStr ''hello'')]"

definition safe_body :: json where
  "safe_body = JObj [(''safe'', JBool True)]"

definition example_platform :: "fetch_result \<Rightarrow> platform" where
  "example_platform r =
     \<lparr>gcm = tagged_cipher, random = zero_entropy,
      JSON_stringify = (\<lambda>j. ascii (stringify j)),
      JSON_parse = parse_among [hello_body, safe_body],
      fetch = (\<lambda>req. r)\<rparr>"


text \<open>
  Two clients of a local server, without and with the encryption key of the tests, and a
  client whose key is not a key.
\<close>

definition plain_client :: SafeChat where
  "plain_client =
     \<lparr>this_apiKey = ''sc_test_123'', this_encryptionKey = None,
      this_baseUrl = ''http://localhost:8080'', this_timeout = 30000\<rparr>"


definition badkey_options :: SafeChatOptions where
  "badkey_options =
     \<lparr>apiKey = ''sc_test_123'', encryptionKey = Some ''not-a-key'',
      baseUrl = Some ''http://localhost:8080///'', timeout = None\<rparr>"

text \<open>The client that the constructor makes of \<open>badkey_options\<close>.\<close>

definition badkey_client :: SafeChat where
  "badkey_client =
     \<lparr>this_apiKey = ''sc_test_123'', this_encryptionKey = Some ''not-a-key'',
      this_baseUrl = ''http://localhost:8080'', this_timeout = 30000\<rparr>"

text \<open>
  Responses of the server: a success that is flagged as encrypted but carries plain
  JSON, a plain success, and a failure whose body is the JSON value \<open>null\<close>.
\<close>

definition flagged_response :: response where
  "flagged_response =
     \<lparr>status = 200, statusText = ''OK'',
      res_headers = [''content-type'' \<mapsto> ''application/json'', ''x-encrypted'' \<mapsto> ''true''],
      res_json = Some safe_body\<rparr>"

definition plain_response :: response where
  "plain_response =
     \<lparr>status = 200, statusText = ''OK'',
      res_headers = [''content-type'' \<mapsto> ''application/json''],
      res_json = Some safe_body\<rparr>"

definition null_failure :: response where
  "null_failure =
     \<lparr>status = 500, statusText = ''Internal Server Error'',
      res_headers = [''content-type'' \<mapsto> ''application/json''],
      res_json = Some JNull\<rparr>"

section \<open>Base64 round trip\<close>

text \<open>
  The two tables are inverse to each other, and no sextet is written as the padding.
\<close>

lemma unbase64_b64char: "i < 64 \<Longrightarrow> unbase64 (b64char i) = Some i"
  by (auto simp: unbase64_def b64char_def Let_def)

lemma b64char_not_pad: "b64char i \<noteq> CHR ''=''"
proof
  assume h: "b64char i = CHR ''=''"
  have n: "unbase64 (CHR ''='') = None" by (simp add: unbase64_def)
  show False
  proof (cases "i < 64")
    case True
    from unbase64_b64char [OF True] h n show False by simp
  next
    case False
    then have "b64char i = CHR ''/''" by (simp add: b64char_def)
    with h show False by simp
  qed
qed

lemma b64_sextets_Nil: "b64_sextets [] = []"
  by (simp add: b64_sextets_def List.map_filter_simps)

lemma b64_sextets_Cons: "i < 64 \<Longrightarrow> b64_sextets (b64char i # s) = i # b64_sextets s"
  by (simp add: b64_sextets_def b64char_not_pad unbase64_b64char List.map_filter_simps)

lemma b64_sextets_pad: "b64_sextets (CHR ''='' # s) = []"
  by (simp add: b64_sextets_def List.map_filter_simps)

text \<open>
  The sextets of a group of bytes, put together again, are the bytes.
\<close>

lemma unat_byte_less: "unat (a :: 8 word) < 256"
  using unsigned_less [of a, where 'a = nat] by simp

lemma sextet_bounds:
  fixes a b c :: "8 word"
  shows "unat a div 4 < 64" and "unat a mod 4 * 16 + unat b div 16 < 64"
    and "unat b mod 16 * 4 + unat c div 64 < 64" and "unat c mod 64 < 64"
    and "unat a mod 4 * 16 < 64" and "unat b mod 16 * 4 < 64"
  using unat_byte_less [of a] unat_byte_less [of b] unat_byte_less [of c] by simp_all

lemma b64_first_byte:
  fixes a b :: "8 word"
  shows "(of_nat (unat a div 4 * 4 + (unat a mod 4 * 16 + unat b div 16) div 16) :: 8 word) = a"
proof -
  have "unat b div 16 < 16" using unat_byte_less [of b] by simp
  then have "unat a div 4 * 4 + (unat a mod 4 * 16 + unat b div 16) div 16 = unat a" by simp
  then show ?thesis by simp
qed

lemma b64_first_byte_padded:
  fixes a :: "8 word"
  shows "(of_nat (unat a div 4 * 4 + (unat a mod 4 * 16) div 16) :: 8 word) = a"
proof -
  have "unat a div 4 * 4 + (unat a mod 4 * 16) div 16 = unat a" by simp
  then show ?thesis by simp
qed

lemma b64_second_byte:
  fixes a b c :: "8 word"
  shows "(of_nat ((unat a mod 4 * 16 + unat b div 16) mod 16 * 16
                  + (unat b mod 16 * 4 + unat c div 64) div 4) :: 8 word) = b"
proof -
  have "unat c div 64 < 4" "unat b div 16 < 16"
    using unat_byte_less [of c] unat_byte_less [of b] by simp_all
  then have "(unat a mod 4 * 16 + unat b div 16) mod 16 * 16
             + (unat b mod 16 * 4 + unat c div 64) div 4 = unat b" by simp
  then show ?thesis by simp
qed

lemma b64_second_byte_padded:
  fixes a b :: "8 word"
  shows "(of_nat ((unat a mod 4 * 16 + unat b div 16) mod 16 * 16
                  + (unat b mod 16 * 4) div 4) :: 8 word) = b"
proof -
  have "unat b div 16 < 16" using unat_byte_less [of b] by simp
  then have "(unat a mod 4 * 16 + unat b div 16) mod 16 * 16 + (unat b mod 16 * 4) div 4
             = unat b" by simp
  then show ?thesis by simp
qed

lemma b64_third_byte:
  fixes b c :: "8 word"
  shows "(of_nat ((unat b mod 16 * 4 + unat c div 64) mod 4 * 64 + unat c mod 64) :: 8 word) = c"
proof -
  have "unat c div 64 < 4" using unat_byte_less [of c] by simp
  then have "(unat b mod 16 * 4 + unat c div 64) mod 4 * 64 + unat c mod 64 = unat c" by simp
  then show ?thesis by simp
qed

lemma b64_unpack_one:
  fixes a :: "8 word"
  shows "b64_unpack [unat a div 4, unat a mod 4 * 16] = [a]"
  by (simp only: b64_unpack.simps b64_first_byte_padded)

lemma b64_unpack_two:
  fixes a b :: "8 word"
  shows "b64_unpack [unat a div 4, unat a mod 4 * 16 + unat b div 16, unat b mod 16 * 4] = [a, b]"
  by (simp only: b64_unpack.simps b64_first_byte b64_second_byte_padded)

lemma b64_unpack_three:
  fixes a b c :: "8 word"
  shows "b64_unpack (unat a div 4 # (unat a mod 4 * 16 + unat b div 16) #
            (unat b mod 16 * 4 + unat c div 64) # unat c mod 64 # R) = a # b # c # b64_unpack R"
  by (simp only: b64_unpack.simps b64_first_byte b64_second_byte b64_third_byte
      append_Cons append_Nil)

text \<open>
  Decoding what was encoded gives the bytes back.
\<close>

lemma b64_roundtrip: "b64_decode (b64_encode bs) = bs"
proof (induction bs rule: b64_encode.induct)
  case 1
  then show ?case by (simp add: b64_decode_def b64_sextets_Nil)
next
  case (2 a)
  show ?case
    by (simp only: b64_decode_def b64_encode.simps b64_sextets_Cons b64_sextets_pad
        sextet_bounds b64_unpack_one)
next
  case (3 a b)
  show ?case
    by (simp only: b64_decode_def b64_encode.simps b64_sextets_Cons b64_sextets_pad
        sextet_bounds b64_unpack_two)
next
  case (4 a b c rest)
  then have "b64_unpack (b64_sextets (b64_encode rest)) = rest"
    by (simp only: b64_decode_def)
  then show ?case
    by (simp only: b64_decode_def b64_encode.simps append_Cons append_Nil b64_sextets_Cons
        sextet_bounds b64_unpack_three)
qed

section \<open>UTF-8 round trip\<close>

text \<open>
  Arithmetic on the base-64 digits of a code point.
\<close>

lemma unat_byte: "n < 256 \<Longrightarrow> unat (of_nat n :: 8 word) = n"
  by (simp add: unat_of_nat)

lemma add_mod_cancel: "(q::nat) < m \<Longrightarrow> (k * m + q) mod m = q"
  by simp

lemma div_4096: "(cp::nat) div 4096 = cp div 64 div 64"
  using div_mult2_eq [of cp 64 64] by simp

lemma div_262144: "(cp::nat) div 262144 = cp div 64 div 64 div 64"
  using div_mult2_eq [of cp 4096 64] by (simp add: div_4096)

lemma recompose2: "(cp::nat) div 64 * 64 + cp mod 64 = cp"
  by simp

lemma recompose3: "((cp::nat) div 4096 * 64 + cp div 64 mod 64) * 64 + cp mod 64 = cp"
  by (simp add: div_4096)

lemma recompose4:
  "(((cp::nat) div 262144 * 64 + cp div 4096 mod 64) * 64 + cp div 64 mod 64) * 64 + cp mod 64 = cp"
  by (simp add: div_4096 div_262144)

lemma continuation_byte:
  "(q::nat) < 64 \<Longrightarrow> 0x80 \<le> 0x80 + q \<and> 0x80 + q \<le> 0xBF \<and> (0x80 + q) mod 64 = q"
  using add_mod_cancel [of q 64 2] by simp

text \<open>
  The decoder, started on the bytes of one scalar value, returns its code units and is
  back in its start state.
\<close>

lemma utf8_dec_one_byte:
  assumes "cp < 0x80"
  shows "utf8_dec utf8_start (utf8_of_cp cp @ rest) = units_of_cp cp @ utf8_dec utf8_start rest"
proof -
  have u: "unat (of_nat cp :: 8 word) = cp" using assms by (simp add: unat_byte)
  show ?thesis using assms
    by (simp add: utf8_of_cp_def utf8_start_def utf8_lead_def units_of_cp_def u)
qed

lemma utf8_dec_two_bytes:
  assumes "0x80 \<le> cp" "cp < 0x800"
  shows "utf8_dec utf8_start (utf8_of_cp cp @ rest) = units_of_cp cp @ utf8_dec utf8_start rest"
proof -
  define b0 where "b0 = 0xC0 + cp div 64"
  define b1 where "b1 = 0x80 + cp mod 64"
  have q: "cp div 64 < 32" "2 \<le> cp div 64" using assms by simp_all
  have r0: "0xC2 \<le> b0" "b0 \<le> 0xDF" "b0 mod 32 = cp div 64"
    using q add_mod_cancel [of "cp div 64" 32 6] by (simp_all add: b0_def)
  have r1: "0x80 \<le> b1" "b1 \<le> 0xBF" "b1 mod 64 = cp mod 64"
    using continuation_byte [of "cp mod 64"] by (simp_all add: b1_def)
  have u0: "unat (of_nat b0 :: 8 word) = b0" using r0 by (simp add: unat_byte)
  have u1: "unat (of_nat b1 :: 8 word) = b1" using r1 by (simp add: unat_byte)
  have e: "utf8_of_cp cp = [of_nat b0, of_nat b1]"
    using assms by (simp add: utf8_of_cp_def b0_def b1_def)
  have l: "utf8_lead b0 = ([], (1, cp div 64, 0x80, 0xBF))"
    using r0 by (simp add: utf8_lead_def)
  show ?thesis using r1 by (simp add: e utf8_start_def u0 u1 l recompose2)
qed

lemma utf8_dec_three_bytes:
  assumes "0x800 \<le> cp" "cp < 0x10000" "\<not> (0xD800 \<le> cp \<and> cp \<le> 0xDFFF)"
  shows "utf8_dec utf8_start (utf8_of_cp cp @ rest) = units_of_cp cp @ utf8_dec utf8_start rest"
proof -
  define a where "a = cp div 64"
  define b0 where "b0 = 0xE0 + cp div 4096"
  define b1 where "b1 = 0x80 + a mod 64"
  define b2 where "b2 = 0x80 + cp mod 64"
  define lo where "lo = (if b0 = 0xE0 then 0xA0 else (0x80::nat))"
  define hi where "hi = (if b0 = 0xED then 0x9F else (0xBF::nat))"
  have a: "32 \<le> a" "a < 1024" "cp div 4096 = a div 64" "a div 64 * 64 + a mod 64 = a"
    using assms by (simp_all add: a_def div_4096)
  have q: "a div 64 < 16" using a(2) by simp
  have r0: "0xE0 \<le> b0" "b0 \<le> 0xEF" "b0 mod 16 = cp div 4096"
    using q add_mod_cancel [of "a div 64" 16 14] by (simp_all add: b0_def a(3))
  have r1: "0x80 \<le> b1" "b1 \<le> 0xBF" "b1 mod 64 = a mod 64"
    using continuation_byte [of "a mod 64"] by (simp_all add: b1_def)
  have lo: "lo \<le> b1"
  proof (cases "b0 = 0xE0")
    case True
    then have "a div 64 = 0" by (simp add: b0_def a(3))
    then have "a mod 64 = a" using a(4) by simp
    then show ?thesis using a(1) by (simp add: lo_def b1_def)
  next
    case False
    then show ?thesis using r1 by (simp add: lo_def)
  qed
  have hi: "b1 \<le> hi"
  proof (cases "b0 = 0xED")
    case True
    then have d: "a div 64 = 13" by (simp add: b0_def a(3))
    have m: "a mod 64 < 64" by simp
    have "a < 896" using a(4) d m by simp
    have "\<not> 0xE000 \<le> cp"
    proof
      assume "0xE000 \<le> cp"
      then have "896 \<le> a" by (simp add: a_def)
      with \<open>a < 896\<close> show False by simp
    qed
    then have "cp < 0xD800" using assms(3) by simp
    then have "a < 864" by (simp add: a_def)
    then have "a mod 64 < 32" using a(4) d by simp
    then show ?thesis using True by (simp add: hi_def b1_def)
  next
    case False
    then show ?thesis using r1 by (simp add: hi_def)
  qed
  have r2: "0x80 \<le> b2" "b2 \<le> 0xBF" "b2 mod 64 = cp mod 64"
    using continuation_byte [of "cp mod 64"] by (simp_all add: b2_def)
  have u: "unat (of_nat b0 :: 8 word) = b0" "unat (of_nat b1 :: 8 word) = b1"
    "unat (of_nat b2 :: 8 word) = b2" using r0 r1 r2 by (simp_all add: unat_byte)
  have e: "utf8_of_cp cp = [of_nat b0, of_nat b1, of_nat b2]"
    using assms by (simp add: utf8_of_cp_def b0_def b1_def b2_def a_def)
  have l: "utf8_lead b0 = ([], (2, cp div 4096, lo, hi))"
    using r0 by (simp add: utf8_lead_def lo_def hi_def)
  define acc where "acc = cp div 4096 * 64 + a mod 64"
  have c: "acc * 64 + cp mod 64 = cp"
    using recompose3 [of cp] by (simp add: a_def acc_def)
  have s1: "utf8_dec utf8_start (of_nat b0 # of_nat b1 # of_nat b2 # rest)
      = utf8_dec (2, cp div 4096, lo, hi) (of_nat b1 # of_nat b2 # rest)"
    by (simp add: utf8_start_def u l)
  have s2: "utf8_dec (2, cp div 4096, lo, hi) (of_nat b1 # of_nat b2 # rest)
      = utf8_dec (1, acc, 0x80, 0xBF) (of_nat b2 # rest)"
    using lo hi r1 by (simp add: u acc_def)
  have s3: "utf8_dec (1, acc, 0x80, 0xBF) (of_nat b2 # rest)
      = units_of_cp cp @ utf8_dec utf8_start rest"
    using r2 by (simp add: u c)
  show ?thesis by (simp only: e append_Cons append_Nil s1 s2 s3)
qed

lemma utf8_dec_four_bytes:
  assumes "0x10000 \<le> cp" "cp < 0x110000"
  shows "utf8_dec utf8_start (utf8_of_cp cp @ rest) = units_of_cp cp @ utf8_dec utf8_start rest"
proof -
  define a where "a = cp div 4096"
  define b0 where "b0 = 0xF0 + cp div 262144"
  define b1 where "b1 = 0x80 + a mod 64"
  define b2 where "b2 = 0x80 + cp div 64 mod 64"
  define b3 where "b3 = 0x80 + cp mod 64"
  define lo where "lo = (if b0 = 0xF0 then 0x90 else (0x80::nat))"
  define hi where "hi = (if b0 = 0xF4 then 0x8F else (0xBF::nat))"
  have a: "16 \<le> a" "a < 272" "cp div 262144 = a div 64" "a div 64 * 64 + a mod 64 = a"
    using assms by (simp_all add: a_def div_4096 div_262144)
  have q: "a div 64 < 5" using a(2) by simp
  have r0: "0xF0 \<le> b0" "b0 \<le> 0xF4" "b0 mod 8 = cp div 262144"
    using q add_mod_cancel [of "a div 64" 8 30] by (simp_all add: b0_def a(3))
  have r1: "0x80 \<le> b1" "b1 \<le> 0xBF" "b1 mod 64 = a mod 64"
    using continuation_byte [of "a mod 64"] by (simp_all add: b1_def)
  have lo: "lo \<le> b1"
  proof (cases "b0 = 0xF0")
    case True
    then have "a div 64 = 0" by (simp add: b0_def a(3))
    then have "a mod 64 = a" using a(4) by simp
    then show ?thesis using a(1) by (simp add: lo_def b1_def)
  next
    case False
    then show ?thesis using r1 by (simp add: lo_def)
  qed
  have hi: "b1 \<le> hi"
  proof (cases "b0 = 0xF4")
    case True
    then have d: "a div 64 = 4" by (simp add: b0_def a(3))
    then have "a mod 64 < 16" using a(4) a(2) by simp
    then show ?thesis using True by (simp add: hi_def b1_def)
  next
    case False
    then show ?thesis using r1 by (simp add: hi_def)
  qed
  have r2: "0x80 \<le> b2" "b2 \<le> 0xBF" "b2 mod 64 = cp div 64 mod 64"
    using continuation_byte [of "cp div 64 mod 64"] by (simp_all add: b2_def)
  have r3: "0x80 \<le> b3" "b3 \<le> 0xBF" "b3 mod 64 = cp mod 64"
    using continuation_byte [of "cp mod 64"] by (simp_all add: b3_def)
  have u: "unat (of_nat b0 :: 8 word) = b0" "unat (of_nat b1 :: 8 word) = b1"
    "unat (of_nat b2 :: 8 word) = b2" "unat (of_nat b3 :: 8 word) = b3"
    using r0 r1 r2 r3 by (simp_all add: unat_byte)
  have e: "utf8_of_cp cp = [of_nat b0, of_nat b1, of_nat b2, of_nat b3]"
    using assms by (simp add: utf8_of_cp_def b0_def b1_def b2_def b3_def a_def)
  have l: "utf8_lead b0 = ([], (3, cp div 262144, lo, hi))"
    using r0 by (simp add: utf8_lead_def lo_def hi_def)
  define acc1 where "acc1 = cp div 262144 * 64 + a mod 64"
  define acc2 where "acc2 = acc1 * 64 + cp div 64 mod 64"
  have c: "acc2 * 64 + cp mod 64 = cp"
    using recompose4 [of cp] by (simp add: a_def acc1_def acc2_def)
  have s1: "utf8_dec utf8_start (of_nat b0 # of_nat b1 # of_nat b2 # of_nat b3 # rest)
      = utf8_dec (3, cp div 262144, lo, hi) (of_nat b1 # of_nat b2 # of_nat b3 # rest)"
    by (simp add: utf8_start_def u l)
  have s2: "utf8_dec (3, cp div 262144, lo, hi) (of_nat b1 # of_nat b2 # of_nat b3 # rest)
      = utf8_dec (2, acc1, 0x80, 0xBF) (of_nat b2 # of_nat b3 # rest)"
    using lo hi r1 by (simp add: u acc1_def)
  have s3: "utf8_dec (2, acc1, 0x80, 0xBF) (of_nat b2 # of_nat b3 # rest)
      = utf8_dec (1, acc2, 0x80, 0xBF) (of_nat b3 # rest)"
    using r2 by (simp add: u acc2_def)
  have s4: "utf8_dec (1, acc2, 0x80, 0xBF) (of_nat b3 # rest)
      = units_of_cp cp @ utf8_dec utf8_start rest"
    using r3 by (simp add: u c)
  show ?thesis by (simp only: e append_Cons append_Nil s1 s2 s3 s4)
qed

lemma utf8_dec_scalar:
  assumes "cp < 0x110000" "\<not> (0xD800 \<le> cp \<and> cp \<le> 0xDFFF)"
  shows "utf8_dec utf8_start (utf8_of_cp cp @ rest) = units_of_cp cp @ utf8_dec utf8_start rest"
proof -
  consider "cp < 0x80" | "0x80 \<le> cp \<and> cp < 0x800" | "0x800 \<le> cp \<and> cp < 0x10000"
    | "0x10000 \<le> cp" by linarith
  then show ?thesis
  proof cases
    case 1 then show ?thesis by (rule utf8_dec_one_byte)
  next
    case 2 then show ?thesis using utf8_dec_two_bytes by blast
  next
    case 3 then show ?thesis using utf8_dec_three_bytes assms by blast
  next
    case 4 then show ?thesis using utf8_dec_four_bytes assms by blast
  qed
qed

text \<open>
  The code units of the scalar values of a string.
\<close>

lemma unat_unit_less: "unat (u :: 16 word) < 65536"
  using unsigned_less [of u, where 'a = nat] by simp

lemma scalar_of_valid:
  "scalar_of u < 0x110000" "\<not> (0xD800 \<le> scalar_of u \<and> scalar_of u \<le> 0xDFFF)"
  "units_of_cp (scalar_of u) = [replace_surrogate u]"
  using unat_unit_less [of u]
  by (auto simp: scalar_of_def units_of_cp_def replace_surrogate_def is_high_surrogate_def
      is_low_surrogate_def)

lemma units_pair:
  assumes "is_high_surrogate u" "is_low_surrogate v"
  defines "cp \<equiv> 0x10000 + (unat u - 0xD800) * 0x400 + (unat v - 0xDC00)"
  shows "units_of_cp cp = [u, v]" "0x10000 \<le> cp" "cp < 0x110000"
proof -
  define h where "h = unat u - 0xD800"
  define l where "l = unat v - 0xDC00"
  have h: "h < 0x400" "0xD800 + h = unat u" and l: "l < 0x400" "0xDC00 + l = unat v"
    using assms(1,2) by (auto simp: is_high_surrogate_def is_low_surrogate_def h_def l_def)
  have cp: "cp = 0x10000 + (h * 0x400 + l)" by (simp add: cp_def h_def l_def)
  have dm: "(h * 0x400 + l) div 0x400 = h" "(h * 0x400 + l) mod 0x400 = l"
    using l(1) by simp_all
  show "0x10000 \<le> cp" by (simp add: cp)
  have "h * 0x400 + l < 0x100000"
  proof -
    have "h * 0x400 \<le> 0x3FF * 0x400" using h(1) by simp
    then show ?thesis using l(1) by simp
  qed
  then show "cp < 0x110000" by (simp add: cp)
  have "units_of_cp cp = [of_nat (0xD800 + h), of_nat (0xDC00 + l)]"
    unfolding units_of_cp_def cp using dm by simp
  moreover have "(of_nat (0xD800 + h) :: 16 word) = u" "(of_nat (0xDC00 + l) :: 16 word) = v"
    by (simp_all only: h l of_nat_unat ucast_id)
  ultimately show "units_of_cp cp = [u, v]" by (simp only:)
qed

text \<open>
  Decoding the encoding of any string gives the string with its unpaired surrogates
  replaced, which is the string itself when it is well formed.
\<close>

lemma utf8_dec_encode:
  "utf8_dec utf8_start (utf8_encode s @ rest) = toWellFormed s @ utf8_dec utf8_start rest"
proof (induction s rule: toWellFormed.induct)
  case 1
  then show ?case by (simp add: utf8_encode_def)
next
  case (2 u)
  have "utf8_dec utf8_start (utf8_of_cp (scalar_of u) @ rest)
      = units_of_cp (scalar_of u) @ utf8_dec utf8_start rest"
    by (rule utf8_dec_scalar [OF scalar_of_valid(1,2)])
  then show ?case by (simp add: utf8_encode_def scalar_of_valid(3))
next
  case (3 u v rest')
  show ?case
  proof (cases "is_high_surrogate u \<and> is_low_surrogate v")
    case True
    then have hi: "is_high_surrogate u" and lo: "is_low_surrogate v" by simp_all
    from 3(1) [OF True]
    have ih: "utf8_dec utf8_start (utf8_encode rest' @ rest)
        = toWellFormed rest' @ utf8_dec utf8_start rest" .
    let ?cp = "0x10000 + (unat u - 0xD800) * 0x400 + (unat v - 0xDC00)"
    have enc: "utf8_encode (u # v # rest') = utf8_of_cp ?cp @ utf8_encode rest'"
      using True by (simp add: utf8_encode_def)
    have twf: "toWellFormed (u # v # rest') = u # v # toWellFormed rest'"
      using True by simp
    have "utf8_dec utf8_start (utf8_of_cp ?cp @ (utf8_encode rest' @ rest))
        = units_of_cp ?cp @ utf8_dec utf8_start (utf8_encode rest' @ rest)"
      by (rule utf8_dec_four_bytes [OF units_pair(2,3) [OF hi lo]])
    then show ?thesis
      by (simp only: enc twf append_assoc units_pair(1) [OF hi lo] ih append_Cons append_Nil)
  next
    case False
    from 3(2) [OF False]
    have ih: "utf8_dec utf8_start (utf8_encode (v # rest') @ rest)
        = toWellFormed (v # rest') @ utf8_dec utf8_start rest" .
    have enc: "utf8_encode (u # v # rest') = utf8_of_cp (scalar_of u) @ utf8_encode (v # rest')"
      using False by (auto simp: utf8_encode_def)
    have twf: "toWellFormed (u # v # rest') = replace_surrogate u # toWellFormed (v # rest')"
      using False by auto
    have "utf8_dec utf8_start (utf8_of_cp (scalar_of u) @ (utf8_encode (v # rest') @ rest))
        = units_of_cp (scalar_of u) @ utf8_dec utf8_start (utf8_encode (v # rest') @ rest)"
      by (rule utf8_dec_scalar [OF scalar_of_valid(1,2)])
    then show ?thesis
      by (simp only: enc twf append_assoc scalar_of_valid(3) ih append_Cons append_Nil)
  qed
qed

lemma utf8_decode_encode: "utf8_decode (utf8_encode s) = toWellFormed s"
  using utf8_dec_encode [of s "[]"] by (simp add: utf8_decode_def utf8_start_def)

lemma toWellFormed_id: "well_formed s \<Longrightarrow> toWellFormed s = s"
  by (induction s rule: well_formed.induct) (auto simp: replace_surrogate_def)

lemma utf8_roundtrip: "well_formed s \<Longrightarrow> utf8_decode (utf8_encode s) = s"
  by (simp add: utf8_decode_encode toWellFormed_id)

section \<open>The examples\<close>

text \<open>
  The example cipher meets the contracts, and the example keys, texts and envelopes are
  what their definitions say.
\<close>

lemma nonce_nonempty: "length (n :: bytes) = 12 \<Longrightarrow> n \<noteq> []"
  by auto

lemma tagged_correct: "aead_correct tagged_cipher"
  by (simp add: aead_correct_def tagged_cipher_def IV_BYTES_def o_def nonce_nonempty)



lemma test_key_length: "length (b64_decode test_key) = 32"
  by (simp add: test_key_def b64_decode_def b64_sextets_def List.map_filter_simps unbase64_def)



lemmas eval_codec =
  b64_decode_def b64_sextets_def unbase64_def b64char_def char_of_def
  bit_Suc_0_iff utf8_encode_def scalar_of_def is_high_surrogate_def is_low_surrogate_def
  utf8_of_cp_def utf8_decode_def utf8_start_def utf8_lead_def units_of_cp_def

lemma hi_encrypt: "encrypt tagged_cipher zero_entropy hi_text test_key = Inr hi_envelope"
  by (simp add: encrypt_def test_key_def tagged_cipher_def zero_entropy_def hi_text_def
      hi_envelope_def IV_BYTES_def randomBytes_def upt_rec eval_codec)




section \<open>Properties of encrypt and decrypt\<close>



lemma randomBytes_length: "length (randomBytes rnd n) = n"
  by (simp add: randomBytes_def)

lemma encrypt_Inr:
  assumes "encrypt G rnd p k = Inr e"
  shows "length (b64_decode k) = 32"
    and "accepts_iv G (randomBytes rnd IV_BYTES)"
    and "iv e = Some (b64_encode (randomBytes rnd IV_BYTES))"
    and "tag e = Some (b64_encode (snd (seal G (b64_decode k) (randomBytes rnd IV_BYTES) (utf8_encode p))))"
    and "data e = Some (b64_encode (fst (seal G (b64_decode k) (randomBytes rnd IV_BYTES) (utf8_encode p))))"
  using assms by (auto simp: encrypt_def Let_def split: if_splits prod.splits)

lemma encrypt_succeeds:
  assumes "length (b64_decode k) = 32" "accepts_iv G (randomBytes rnd IV_BYTES)"
  shows "\<exists>e. encrypt G rnd p k = Inr e"
  using assms by (simp add: encrypt_def Let_def split: prod.splits)

lemma decrypt_present:
  assumes "length (b64_decode k) = 32" "iv e = Some i" "tag e = Some t" "data e = Some d"
    "accepts_iv G (b64_decode i)" "accepts_tag G (b64_decode t)"
  shows "decrypt G e k =
    (case unseal G (b64_decode k) (b64_decode i) (b64_decode t) (b64_decode d) of
       None \<Rightarrow> Inl UnableToAuthenticate | Some q \<Rightarrow> Inr (utf8_decode q))"
  using assms by (simp add: decrypt_def Buffer_from_base64_def)


lemma decrypt_encrypt:
  assumes "aead_correct G" "length (b64_decode k) = 32"
  shows "\<exists>e. encrypt G rnd p k = Inr e \<and> decrypt G e k = Inr (toWellFormed p)"
proof -
  let ?n = "randomBytes rnd IV_BYTES"
  let ?s = "seal G (b64_decode k) ?n (utf8_encode p)"
  have c: "accepts_iv G ?n" "accepts_tag G (snd ?s)"
    "unseal G (b64_decode k) ?n (snd ?s) (fst ?s) = Some (utf8_encode p)"
    using assms by (simp_all add: aead_correct_def randomBytes_length)
  from encrypt_succeeds [OF assms(2) c(1)] obtain e where e: "encrypt G rnd p k = Inr e" ..
  note f = encrypt_Inr [OF e]
  have "decrypt G e k = Inr (toWellFormed p)"
    using decrypt_present [OF assms(2) f(3) f(4) f(5)] c
    by (simp add: b64_roundtrip utf8_decode_encode)
  with e show ?thesis by blast
qed

lemma distinct_draws_distinct_nonces:
  assumes "encrypt G rnd p k = Inr e" and "encrypt G rnd' p k = Inr e'"
    and "randomBytes rnd IV_BYTES \<noteq> randomBytes rnd' IV_BYTES"
  shows "iv e \<noteq> iv e'"
proof
  assume "iv e = iv e'"
  with encrypt_Inr(3) [OF assms(1)] encrypt_Inr(3) [OF assms(2)]
  have "b64_encode (randomBytes rnd IV_BYTES) = b64_encode (randomBytes rnd' IV_BYTES)"
    by simp
  then have "b64_decode (b64_encode (randomBytes rnd IV_BYTES))
      = b64_decode (b64_encode (randomBytes rnd' IV_BYTES))" by simp
  with assms(3) show False by (simp add: b64_roundtrip)
qed

section \<open>Properties of the client\<close>

lemma strip_trailing_slashes_replicate:
  assumes "b = [] \<or> last b \<noteq> CHR ''/''"
  shows "strip_trailing_slashes (b @ replicate n (CHR ''/'')) = b"
proof -
  have d: "dropWhile (\<lambda>c. c = CHR ''/'') (rev b) = rev b"
  proof (cases b rule: rev_cases)
    case Nil
    then show ?thesis by simp
  next
    case (snoc ys y)
    with assms show ?thesis by simp
  qed
  have "dropWhile (\<lambda>c. c = CHR ''/'') (replicate n (CHR ''/'') @ rev b) = rev b"
    by (simp add: dropWhile_append d)
  then show ?thesis by (simp add: strip_trailing_slashes_def)
qed

lemma outbound_url: "outbound P this m path body_opt = Inr rq \<Longrightarrow> url rq = request_url this path"
  by (auto simp: outbound_def Let_def split: option.splits if_splits sum.splits)

lemma outbound_no_body:
  "outbound P this m path None
     = Inr \<lparr>url = request_url this path, http_method = m,
            headers = [(''X-API-Key'', this_apiKey this), (''Accept'', ''application/json'')],
            body = None\<rparr>"
  by (simp add: outbound_def)

lemma inbound_plain:
  assumes "ok res" and "\<not> (res_headers res ''x-encrypted'' = Some ''true'' \<and> key_configured this)"
  shows "inbound P this res = (case res_json res of None \<Rightarrow> Inl SyntaxError | Some v \<Rightarrow> Inr v)"
  using assms by (auto simp: inbound_def)

lemma request_responded:
  assumes "outbound P this m path body_opt = Inr rq" and "fetch P rq = Responded res"
  shows "request P this m path body_opt = inbound P this res"
  using assms by (simp add: request_def)

lemma failure_status_no_result: "\<not> ok res \<Longrightarrow> \<exists>e. inbound P this res = Inl e"
  by (auto simp: inbound_def Let_def get_property_def split: option.splits json.splits sum.splits)

lemma failure_status_SafeChatError:
  assumes "\<not> ok res" and "res_json res \<noteq> Some JNull"
  shows "\<exists>message. inbound P this res =
           Inl (SafeChatError message (status res)
                  (case res_json res of Some j \<Rightarrow> j
                   | None \<Rightarrow> JObj [(''error'', JStr (statusText res))]))"
  using assms
  by (auto simp: inbound_def Let_def get_property_def split: option.splits json.splits)

lemma failure_status_null:
  assumes "\<not> ok res" and "res_json res = Some JNull"
  shows "inbound P this res = Inl TypeError"
  using assms by (simp add: inbound_def get_property_def)

lemma plain_client_no_key: "\<not> key_configured plain_client"
  by (simp add: key_configured_def plain_client_def)

lemma flagged_response_facts:
  "ok flagged_response" "res_headers flagged_response ''x-encrypted'' = Some ''true''"
  "res_json flagged_response = Some safe_body"
  by (simp_all add: ok_def flagged_response_def)

lemma badkey_new: "SafeChat_new badkey_options = Inr badkey_client"
  by (simp add: SafeChat_new_def badkey_options_def badkey_client_def strip_trailing_slashes_def
      DEFAULT_TIMEOUT_def)

section \<open>The claims\<close>

subsection \<open>C1: a flagged response without a key\<close>

text \<open>
  Claim C1, as amended. The client has no error for an encrypted response that it cannot
  decrypt. When a successful response carries the header \<open>x-encrypted: true\<close> and no
  encryption key is configured, \<open>request\<close> reads the body as plain JSON: it returns the
  parsed value, and fails with the parser's \<open>SyntaxError\<close> when the body is not JSON.
\<close>

theorem flagged_response_without_key:
  assumes "\<not> key_configured this"
    and "outbound P this m path body_opt = Inr rq"
    and "fetch P rq = Responded res"
    and "ok res"
    and "res_headers res ''x-encrypted'' = Some ''true''"
  shows "request P this m path body_opt
           = (case res_json res of None \<Rightarrow> Inl SyntaxError | Some v \<Rightarrow> Inr v)"
  using request_responded [OF assms(2,3)] inbound_plain [OF assms(4), of this P] assms(1)
  by simp

text \<open>
  The same response to a call without a body.
\<close>

theorem flagged_response_without_key_witness:
  "\<not> key_configured plain_client \<and>
   outbound (example_platform (Responded flagged_response)) plain_client ''GET'' ''/v1/usage'' None
     = Inr \<lparr>url = ''http://localhost:8080/v1/usage'', http_method = ''GET'',
            headers = [(''X-API-Key'', ''sc_test_123''), (''Accept'', ''application/json'')],
            body = None\<rparr> \<and>
   ok flagged_response \<and> res_headers flagged_response ''x-encrypted'' = Some ''true'' \<and>
   request (example_platform (Responded flagged_response)) plain_client ''GET'' ''/v1/usage'' None
     = Inr safe_body"
proof -
  let ?P = "example_platform (Responded flagged_response)"
  let ?rq = "\<lparr>url = ''http://localhost:8080/v1/usage'', http_method = ''GET'',
            headers = [(''X-API-Key'', ''sc_test_123''), (''Accept'', ''application/json'')],
            body = None\<rparr>"
  have o: "outbound ?P plain_client ''GET'' ''/v1/usage'' None = Inr ?rq"
    by (simp add: outbound_no_body request_url_def plain_client_def)
  have f: "fetch ?P ?rq = Responded flagged_response"
    by (simp add: example_platform_def)
  from flagged_response_without_key [OF plain_client_no_key o f flagged_response_facts(1,2)]
  have "request ?P plain_client ''GET'' ''/v1/usage'' None = Inr safe_body"
    by (simp add: flagged_response_facts(3))
  then show ?thesis using plain_client_no_key o flagged_response_facts by simp
qed

text \<open>
  Claim C1 as stated fails: the response is flagged as encrypted, the client has no key,
  and \<open>request\<close> returns the body parsed as plain JSON.
\<close>

theorem unexpected_encryption_counterexample:
  "\<not> key_configured plain_client \<and> ok flagged_response \<and>
   res_headers flagged_response ''x-encrypted'' = Some ''true'' \<and>
   request (example_platform (Responded flagged_response)) plain_client ''POST'' ''/v1/scan''
     (Some hello_body) = Inr safe_body"
proof -
  have "request (example_platform (Responded flagged_response)) plain_client ''POST'' ''/v1/scan''
     (Some hello_body) = Inr safe_body"
    using plain_client_no_key flagged_response_facts
    by (simp add: request_def outbound_def inbound_def example_platform_def)
  then show ?thesis using plain_client_no_key flagged_response_facts by simp
qed

subsection \<open>C2: malformed envelopes\<close>




subsection \<open>C3: round trip\<close>

text \<open>
  Claim C3, as amended. \<open>encrypt\<close> takes a string, not bytes, and encrypts its UTF-8
  encoding. For every plaintext string and every key string that decodes to 32 bytes,
  under a correct cipher, \<open>encrypt\<close> succeeds and \<open>decrypt\<close> of its envelope under the
  same key returns the plaintext with each unpaired surrogate replaced by U+FFFD: the
  plaintext itself when it has no unpaired surrogate.
\<close>

theorem roundtrip_well_formed:
  assumes "aead_correct G" and "length (b64_decode k) = 32"
  shows "\<exists>e. encrypt G rnd p k = Inr e \<and> decrypt G e k = Inr (toWellFormed p) \<and>
             (well_formed p \<longrightarrow> decrypt G e k = Inr p)"
  using decrypt_encrypt [OF assms, of rnd p] by (auto simp: toWellFormed_id)

text \<open>
  The round trip at the text \<open>hi\<close> with the example cipher and the test key.
\<close>

theorem roundtrip_well_formed_witness:
  "aead_correct tagged_cipher \<and> length (b64_decode test_key) = 32 \<and> well_formed hi_text \<and>
   toWellFormed hi_text = hi_text \<and>
   encrypt tagged_cipher zero_entropy hi_text test_key = Inr hi_envelope \<and>
   decrypt tagged_cipher hi_envelope test_key = Inr hi_text"
proof -
  have wf: "well_formed hi_text"
    by (simp add: hi_text_def is_high_surrogate_def is_low_surrogate_def)
  from roundtrip_well_formed [OF tagged_correct test_key_length, of zero_entropy hi_text]
  have "decrypt tagged_cipher hi_envelope test_key = Inr hi_text"
    using wf by (auto simp: hi_encrypt)
  then show ?thesis using tagged_correct test_key_length wf hi_encrypt
    by (simp add: toWellFormed_id)
qed

text \<open>
  Claim C3 as stated fails for a plaintext that is a lone surrogate: its UTF-8 encoding
  is that of U+FFFD, which is what \<open>decrypt\<close> returns. By \<open>decrypt_encrypt\<close> this is so
  for every correct cipher.
\<close>

theorem roundtrip_counterexample:
  "aead_correct tagged_cipher \<and> length (b64_decode test_key) = 32 \<and>
   encrypt tagged_cipher zero_entropy [0xD800] test_key =
     Inr \<lparr>iv = Some ''AAAAAAAAAAAAAAAA'',
          tag = Some ''q6urq6urq6urq6urq6urq6urq6urq6urq6urq6urq6sAAAAAAAAAAAAAAADwwL4='',
          data = Some ''8MC+''\<rparr> \<and>
   decrypt tagged_cipher
     \<lparr>iv = Some ''AAAAAAAAAAAAAAAA'',
      tag = Some ''q6urq6urq6urq6urq6urq6urq6urq6urq6urq6urq6sAAAAAAAAAAAAAAADwwL4='',
      data = Some ''8MC+''\<rparr> test_key = Inr [0xFFFD] \<and>
   [0xFFFD] \<noteq> [0xD800 :: 16 word]"
proof -
  have e: "encrypt tagged_cipher zero_entropy [0xD800] test_key =
     Inr \<lparr>iv = Some ''AAAAAAAAAAAAAAAA'',
          tag = Some ''q6urq6urq6urq6urq6urq6urq6urq6urq6urq6urq6sAAAAAAAAAAAAAAADwwL4='',
          data = Some ''8MC+''\<rparr>"
    by (simp add: encrypt_def test_key_def tagged_cipher_def zero_entropy_def
        IV_BYTES_def randomBytes_def upt_rec eval_codec)
  have d: "decrypt tagged_cipher
     \<lparr>iv = Some ''AAAAAAAAAAAAAAAA'',
      tag = Some ''q6urq6urq6urq6urq6urq6urq6urq6urq6urq6urq6sAAAAAAAAAAAAAAADwwL4='',
      data = Some ''8MC+''\<rparr> test_key = Inr [0xFFFD]"
    by (simp add: decrypt_def Buffer_from_base64_def test_key_def tagged_cipher_def eval_codec)
  show ?thesis using tagged_correct test_key_length e d by simp
qed

subsection \<open>C4: authentication\<close>



subsection \<open>C5: key length\<close>

text \<open>
  Claim C5. For every key string whose decoded length is not 32 bytes, \<open>encrypt\<close> and
  \<open>decrypt\<close> fail, whatever the other arguments are, with the error whose message names
  the expected length 32 and the actual length; the key is used as decoded, neither cut
  nor padded.
\<close>

theorem invalid_key_rejected:
  assumes "length (b64_decode k) \<noteq> 32"
  shows "encrypt G rnd p k =
           Inl (Error (''Invalid encryption key: expected 32 bytes (256-bit), got ''
                       @ show_nat (length (b64_decode k))))
       \<and> decrypt G e k =
           Inl (Error (''Invalid encryption key: expected 32 bytes (256-bit), got ''
                       @ show_nat (length (b64_decode k))))"
  using assms by (simp add: encrypt_def decrypt_def invalid_key_message_def)

text \<open>
  The 16-byte key of the repository's test.
\<close>

theorem invalid_key_rejected_witness:
  "length (b64_decode ''AAAAAAAAAAAAAAAAAAAAAA=='') \<noteq> 32 \<and>
   encrypt tagged_cipher zero_entropy hi_text ''AAAAAAAAAAAAAAAAAAAAAA=='' =
     Inl (Error ''Invalid encryption key: expected 32 bytes (256-bit), got 16'') \<and>
   decrypt tagged_cipher hi_envelope ''AAAAAAAAAAAAAAAAAAAAAA=='' =
     Inl (Error ''Invalid encryption key: expected 32 bytes (256-bit), got 16'')"
proof -
  have l: "length (b64_decode ''AAAAAAAAAAAAAAAAAAAAAA=='') = 16"
    by (simp add: eval_codec)
  have s: "show_nat 16 = ''16''"
    by (simp add: show_nat.simps char_of_def bit_Suc_0_iff)
  have n: "length (b64_decode ''AAAAAAAAAAAAAAAAAAAAAA=='') \<noteq> 32" using l by simp
  from invalid_key_rejected [OF n, of tagged_cipher zero_entropy hi_text hi_envelope]
  show ?thesis using n by (simp add: l s)
qed

subsection \<open>C6: the outbound signal\<close>



subsection \<open>C7: failure responses\<close>

text \<open>
  Claim C7 at a failure response whose body is the JSON value \<open>null\<close>: \<open>res.json()\<close>
  resolves with \<open>null\<close>, the read of \<open>errorBody.error\<close> throws, and \<open>request\<close> fails with
  that \<open>TypeError\<close> instead of a \<open>SafeChatError\<close> carrying the status. What holds is in
  the lemmas \<open>failure_status_no_result\<close>, \<open>failure_status_SafeChatError\<close> and
  \<open>failure_status_null\<close>: no failure response returns a result, every failure response
  whose body is not \<open>null\<close> raises \<open>SafeChatError\<close> with the status and the parsed or
  fallback body, and every failure response whose body is \<open>null\<close> raises \<open>TypeError\<close>.
\<close>

theorem null_error_body_raises_TypeError:
  "\<not> ok null_failure \<and> res_json null_failure = Some JNull \<and>
   request (example_platform (Responded null_failure)) plain_client ''GET'' ''/v1/stats'' None
     = Inl TypeError"
  by (simp add: request_def outbound_def inbound_def example_platform_def null_failure_def ok_def
      get_property_def)

subsection \<open>C9: the base URL\<close>

text \<open>
  Claim C9. Let the configured base URL be \<open>b\<close> followed by any number of slashes, where
  \<open>b\<close> does not end in a slash. Then the client keeps \<open>b\<close>, and the URL of every request
  is \<open>b\<close> followed by the path: base URLs that differ in trailing slashes only give the
  same URLs, with no slash added where base and path meet.
\<close>

theorem base_url_normalised:
  assumes "SafeChat_new options = Inr c"
    and "baseUrl options = Some (b @ replicate n (CHR ''/''))"
    and "b = [] \<or> last b \<noteq> CHR ''/''"
  shows "this_baseUrl c = b \<and> request_url c path = b @ path \<and>
         (\<forall>P m body_opt rq. outbound P c m path body_opt = Inr rq \<longrightarrow> url rq = b @ path)"
proof -
  have b: "this_baseUrl c = b"
    using assms(1,2) strip_trailing_slashes_replicate [OF assms(3), of n]
    by (auto simp: SafeChat_new_def split: if_splits)
  then show ?thesis using outbound_url [of _ c] by (simp add: request_url_def)
qed

text \<open>
  A base URL with three trailing slashes.
\<close>

theorem base_url_normalised_witness:
  "SafeChat_new badkey_options = Inr badkey_client \<and>
   baseUrl badkey_options = Some (''http://localhost:8080'' @ replicate 3 (CHR ''/'')) \<and>
   last ''http://localhost:8080'' \<noteq> CHR ''/'' \<and>
   this_baseUrl badkey_client = ''http://localhost:8080'' \<and>
   request_url badkey_client ''/v1/scan'' = ''http://localhost:8080/v1/scan''"
proof -
  have u: "baseUrl badkey_options = Some (''http://localhost:8080'' @ replicate 3 (CHR ''/''))"
    by (simp add: badkey_options_def numeral_eq_Suc)
  have l: "''http://localhost:8080'' = [] \<or> last ''http://localhost:8080'' \<noteq> CHR ''/''"
    by simp
  from base_url_normalised [OF badkey_new u l, of "''/v1/scan''"]
  have "this_baseUrl badkey_client = ''http://localhost:8080'' \<and>
        request_url badkey_client ''/v1/scan'' = ''http://localhost:8080/v1/scan''" by simp
  then show ?thesis using badkey_new u by simp
qed

subsection \<open>C10: a malformed key\<close>

text \<open>
  Claim C10. The constructor rejects an empty \<open>apiKey\<close> and nothing else; it stores the
  encryption key as given. Whatever that key is, a call without a body builds its
  request, and when the response is a success that is not flagged as encrypted, the
  call returns the parsed body. A non-empty key of a wrong length fails only where
  \<open>encrypt\<close> or \<open>decrypt\<close> runs: in a call with a body, and on a success flagged as
  encrypted.
\<close>

theorem malformed_key_surfaces_late:
  "(apiKey options = [] \<longrightarrow> SafeChat_new options = Inl (Error ''apiKey is required'')) \<and>
   (apiKey options \<noteq> [] \<longrightarrow>
      (\<exists>c. SafeChat_new options = Inr c \<and> this_encryptionKey c = encryptionKey options \<and>
         (\<forall>P m path rq res v.
            outbound P c m path None = Inr rq \<and> fetch P rq = Responded res \<and> ok res \<and>
            res_headers res ''x-encrypted'' \<noteq> Some ''true'' \<and> res_json res = Some v \<longrightarrow>
            request P c m path None = Inr v) \<and>
         (\<forall>P m path. \<exists>rq. outbound P c m path None = Inr rq) \<and>
         (\<forall>P m path b k.
            encryptionKey options = Some k \<and> k \<noteq> [] \<and> length (b64_decode k) \<noteq> 32 \<longrightarrow>
            request P c m path (Some b) = Inl (Error (invalid_key_message (length (b64_decode k))))) \<and>
         (\<forall>P m path rq res j k.
            encryptionKey options = Some k \<and> k \<noteq> [] \<and> length (b64_decode k) \<noteq> 32 \<and>
            outbound P c m path None = Inr rq \<and> fetch P rq = Responded res \<and> ok res \<and>
            res_headers res ''x-encrypted'' = Some ''true'' \<and> res_json res = Some j \<longrightarrow>
            request P c m path None = Inl (Error (invalid_key_message (length (b64_decode k)))))))"
proof (intro conjI impI)
  assume "apiKey options = []"
  then show "SafeChat_new options = Inl (Error ''apiKey is required'')"
    by (simp add: SafeChat_new_def)
next
  assume a: "apiKey options \<noteq> []"
  then obtain c where c: "SafeChat_new options = Inr c"
    by (simp add: SafeChat_new_def)
  then have k: "this_encryptionKey c = encryptionKey options"
    using a by (auto simp: SafeChat_new_def)
  have 1: "\<forall>P m path rq res v.
            outbound P c m path None = Inr rq \<and> fetch P rq = Responded res \<and> ok res \<and>
            res_headers res ''x-encrypted'' \<noteq> Some ''true'' \<and> res_json res = Some v \<longrightarrow>
            request P c m path None = Inr v"
  proof (intro allI impI)
    fix P m path rq res v
    assume h: "outbound P c m path None = Inr rq \<and> fetch P rq = Responded res \<and> ok res \<and>
            res_headers res ''x-encrypted'' \<noteq> Some ''true'' \<and> res_json res = Some v"
    then have "request P c m path None = inbound P c res"
      using request_responded [of P c m path None rq res] by simp
    also have "\<dots> = Inr v"
      using h inbound_plain [of res c P] by simp
    finally show "request P c m path None = Inr v" .
  qed
  have 2: "\<forall>P m path. \<exists>rq. outbound P c m path None = Inr rq"
    by (simp add: outbound_no_body)
  have 3: "\<forall>P m path b k.
            encryptionKey options = Some k \<and> k \<noteq> [] \<and> length (b64_decode k) \<noteq> 32 \<longrightarrow>
            request P c m path (Some b) = Inl (Error (invalid_key_message (length (b64_decode k))))"
    using k
    by (auto simp: request_def outbound_def key_configured_def encrypt_def)
  have 4: "\<forall>P m path rq res j k.
            encryptionKey options = Some k \<and> k \<noteq> [] \<and> length (b64_decode k) \<noteq> 32 \<and>
            outbound P c m path None = Inr rq \<and> fetch P rq = Responded res \<and> ok res \<and>
            res_headers res ''x-encrypted'' = Some ''true'' \<and> res_json res = Some j \<longrightarrow>
            request P c m path None = Inl (Error (invalid_key_message (length (b64_decode k))))"
    using k
    by (auto simp: request_def inbound_def key_configured_def decrypt_def)
  from c k 1 2 3 4
  show "\<exists>c. SafeChat_new options = Inr c \<and> this_encryptionKey c = encryptionKey options \<and>
         (\<forall>P m path rq res v.
            outbound P c m path None = Inr rq \<and> fetch P rq = Responded res \<and> ok res \<and>
            res_headers res ''x-encrypted'' \<noteq> Some ''true'' \<and> res_json res = Some v \<longrightarrow>
            request P c m path None = Inr v) \<and>
         (\<forall>P m path. \<exists>rq. outbound P c m path None = Inr rq) \<and>
         (\<forall>P m path b k.
            encryptionKey options = Some k \<and> k \<noteq> [] \<and> length (b64_decode k) \<noteq> 32 \<longrightarrow>
            request P c m path (Some b) = Inl (Error (invalid_key_message (length (b64_decode k))))) \<and>
         (\<forall>P m path rq res j k.
            encryptionKey options = Some k \<and> k \<noteq> [] \<and> length (b64_decode k) \<noteq> 32 \<and>
            outbound P c m path None = Inr rq \<and> fetch P rq = Responded res \<and> ok res \<and>
            res_headers res ''x-encrypted'' = Some ''true'' \<and> res_json res = Some j \<longrightarrow>
            request P c m path None = Inl (Error (invalid_key_message (length (b64_decode k)))))"
    by blast
qed

text \<open>
  A client whose key decodes to six bytes: a call without a body succeeds, a call with a
  body fails with the error of \<open>encrypt\<close>.
\<close>

theorem malformed_key_surfaces_late_witness:
  "apiKey badkey_options \<noteq> [] \<and> SafeChat_new badkey_options = Inr badkey_client \<and>
   encryptionKey badkey_options = Some ''not-a-key'' \<and> length (b64_decode ''not-a-key'') = 6 \<and>
   ok plain_response \<and> res_headers plain_response ''x-encrypted'' \<noteq> Some ''true'' \<and>
   request (example_platform (Responded plain_response)) badkey_client ''GET'' ''/v1/usage'' None
     = Inr safe_body \<and>
   request (example_platform (Responded plain_response)) badkey_client ''POST'' ''/v1/scan''
     (Some hello_body)
     = Inl (Error ''Invalid encryption key: expected 32 bytes (256-bit), got 6'')"
proof -
  let ?P = "example_platform (Responded plain_response)"
  have a: "apiKey badkey_options \<noteq> []" by (simp add: badkey_options_def)
  have e: "encryptionKey badkey_options = Some ''not-a-key''" by (simp add: badkey_options_def)
  have l: "length (b64_decode ''not-a-key'') = 6" by (simp add: eval_codec)
  have r: "ok plain_response" "res_headers plain_response ''x-encrypted'' \<noteq> Some ''true''"
    "res_json plain_response = Some safe_body"
    by (simp_all add: ok_def plain_response_def)
  have f: "fetch ?P rq = Responded plain_response" for rq
    by (simp add: example_platform_def)
  have msg: "invalid_key_message 6 = ''Invalid encryption key: expected 32 bytes (256-bit), got 6''"
    by (simp add: invalid_key_message_def show_nat.simps char_of_def bit_Suc_0_iff)
  from malformed_key_surfaces_late [of badkey_options] a badkey_new
  have 1: "\<forall>P m path rq res v.
            outbound P badkey_client m path None = Inr rq \<and> fetch P rq = Responded res \<and> ok res \<and>
            res_headers res ''x-encrypted'' \<noteq> Some ''true'' \<and> res_json res = Some v \<longrightarrow>
            request P badkey_client m path None = Inr v"
    and 3: "\<forall>P m path b k.
            encryptionKey badkey_options = Some k \<and> k \<noteq> [] \<and> length (b64_decode k) \<noteq> 32 \<longrightarrow>
            request P badkey_client m path (Some b)
              = Inl (Error (invalid_key_message (length (b64_decode k))))"
    by auto
  have g: "request ?P badkey_client ''GET'' ''/v1/usage'' None = Inr safe_body"
    using 1 [rule_format, of ?P "''GET''" "''/v1/usage''" _ plain_response safe_body]
      outbound_no_body [of ?P badkey_client "''GET''" "''/v1/usage''"] f r by simp
  have p: "request ?P badkey_client ''POST'' ''/v1/scan'' (Some hello_body)
     = Inl (Error ''Invalid encryption key: expected 32 bytes (256-bit), got 6'')"
    using 3 [rule_format, of "''not-a-key''" ?P "''POST''" "''/v1/scan''" hello_body] e l
    by (simp add: msg)
  show ?thesis using a badkey_new e l r g p by simp
qed

end
